theory Spec2Isabelle
  imports Main
begin

section \<open>JavaScript values and plain objects\<close>

text \<open>
  The values that the builder of \<^verbatim>\<open>objectEnumerationBuilder.ts\<close> inspects: it tests them
  for truthiness and compares them with \<^verbatim>\<open>===\<close>. An object is known by its reference only,
  so \<^verbatim>\<open>===\<close> is the equality of this type (numbers are integral here; NaN is left out).
  \<open>JSBuiltin name\<close> is the object that reading \<^verbatim>\<open>name\<close> on \<^verbatim>\<open>Object.prototype\<close> gives: one
  of its functions, or the prototype itself for \<^verbatim>\<open>__proto__\<close>.
\<close>

datatype jsValue =
    JSUndefined
  | JSNull
  | JSBoolean bool
  | JSNumber int
  | JSString string
  | JSObject nat
  | JSBuiltin string

fun truthy :: "jsValue \<Rightarrow> bool" where
  "truthy JSUndefined = False"
| "truthy JSNull = False"
| "truthy (JSBoolean b) = b"
| "truthy (JSNumber n) = (n \<noteq> 0)"
| "truthy (JSString s) = (s \<noteq> [])"
| "truthy (JSObject r) = True"
| "truthy (JSBuiltin name) = True"

text \<open>
  A plain object used as a dictionary (\<^verbatim>\<open>properties\<close>, \<^verbatim>\<open>validValues\<close>, and the
  \<^verbatim>\<open>{}\<close> that \<^verbatim>\<open>extend\<close> allocates): its own enumerable keys with their values, in the
  order \<^verbatim>\<open>for ... in\<close> visits them. Its prototype is \<^verbatim>\<open>Object.prototype\<close>, whose members
  are not enumerable.
\<close>

type_synonym jsDictionary = "(string \<times> jsValue) list"

fun getOwnValue :: "jsDictionary \<Rightarrow> string \<Rightarrow> jsValue option" where
  "getOwnValue [] key = None"
| "getOwnValue ((k, v) # rest) key = (if k = key then Some v else getOwnValue rest key)"

definition objectPrototypeKeys :: "string list" where
  "objectPrototypeKeys =
     [''constructor'', ''hasOwnProperty'', ''isPrototypeOf'', ''propertyIsEnumerable'',
      ''toLocaleString'', ''toString'', ''valueOf'', ''__proto__'',
      ''__defineGetter__'', ''__defineSetter__'', ''__lookupGetter__'', ''__lookupSetter__'']"

text \<open>
  \<^verbatim>\<open>obj[key]\<close>: the own value if the key is an own key, else the member of
  \<^verbatim>\<open>Object.prototype\<close> of that name, else \<^verbatim>\<open>undefined\<close>.
\<close>

definition getValue :: "jsDictionary \<Rightarrow> string \<Rightarrow> jsValue" where
  "getValue obj key =
     (case getOwnValue obj key of
        Some v \<Rightarrow> v
      | None \<Rightarrow> if key \<in> set objectPrototypeKeys then JSBuiltin key else JSUndefined)"

text \<open>
  The array index that a key denotes, if any: a decimal numeral without a leading zero,
  below \<open>2\<^sup>3\<^sup>2 - 1\<close>. Such keys come first in the key order of an object, in
  ascending order; the other keys follow in insertion order.
\<close>

fun positionIn :: "string \<Rightarrow> char \<Rightarrow> int \<Rightarrow> int option" where
  "positionIn [] c n = None"
| "positionIn (d # ds) c n = (if c = d then Some n else positionIn ds c (n + 1))"

definition digitValue :: "char \<Rightarrow> int option" where
  "digitValue c = positionIn ''0123456789'' c 0"

definition arrayIndex :: "string \<Rightarrow> int option" where
  "arrayIndex key =
     (case those (map digitValue key) of
        None \<Rightarrow> None
      | Some [] \<Rightarrow> None
      | Some (d # ds) \<Rightarrow>
          if d = 0 \<and> ds \<noteq> [] then None
          else (let n = foldl (\<lambda>a x. 10 * a + x) 0 (d # ds)
                in if n < 4294967295 then Some n else None))"

text \<open>Writing an own key: the key keeps its place.\<close>

fun replaceOwnValue :: "jsDictionary \<Rightarrow> string \<Rightarrow> jsValue \<Rightarrow> jsDictionary" where
  "replaceOwnValue [] key val = []"
| "replaceOwnValue ((k, v) # rest) key val =
     (if k = key then (k, val) # rest else (k, v) # replaceOwnValue rest key val)"

text \<open>A new array index \<open>n\<close> goes before the first key that is no smaller array index.\<close>

fun insertArrayIndex :: "jsDictionary \<Rightarrow> string \<Rightarrow> int \<Rightarrow> jsValue \<Rightarrow> jsDictionary" where
  "insertArrayIndex [] key n val = [(key, val)]"
| "insertArrayIndex ((k, v) # rest) key n val =
     (case arrayIndex k of
        Some m \<Rightarrow>
          if m < n then (k, v) # insertArrayIndex rest key n val
          else (key, val) # (k, v) # rest
      | None \<Rightarrow> (key, val) # (k, v) # rest)"

text \<open>
  \<^verbatim>\<open>obj[key] = value\<close>: an own key keeps its place; a new key goes to its place among
  the array indices or, if it is none, to the end. Writing \<^verbatim>\<open>__proto__\<close> when that is no
  own key goes to the setter of \<^verbatim>\<open>Object.prototype\<close> and adds no own key; \<^verbatim>\<open>extend\<close>
  never does so, since it writes a key only after reading a falsy value for it.
\<close>

definition setValue :: "jsDictionary \<Rightarrow> string \<Rightarrow> jsValue \<Rightarrow> jsDictionary" where
  "setValue obj key val =
     (if getOwnValue obj key \<noteq> None then replaceOwnValue obj key val
      else if key = ''__proto__'' then obj
      else (case arrayIndex key of
              Some n \<Rightarrow> insertArrayIndex obj key n val
            | None \<Rightarrow> obj @ [(key, val)]))"

section \<open>The data contract: selector, instance, container, enumeration\<close>

text \<open>
  Modelled from the spec: the declaration of \<^verbatim>\<open>Selector\<close> in \<^verbatim>\<open>./common\<close> is not among
  the sources. The builder reads its fields \<^verbatim>\<open>id\<close> and \<^verbatim>\<open>metadata\<close>; whatever else a
  selector carries is kept in \<open>otherFields\<close>.
\<close>

record selectorObject =
  id' :: jsValue
  metadata :: jsValue
  otherFields :: jsDictionary

text \<open>
  What a caller can pass where a \<^verbatim>\<open>Selector\<close> is expected: one of the falsy values
  \<^verbatim>\<open>undefined\<close>, \<^verbatim>\<open>null\<close>, \<^verbatim>\<open>false\<close>, or a selector object.
\<close>

datatype selector =
    SelectorUndefined
  | SelectorNull
  | SelectorFalse
  | Selector selectorObject

datatype fieldName = Properties | ValidValues

record visualObjectInstance =
  objectName :: string
  selector :: selector
  containerIdx :: "int option"
  properties :: "jsDictionary option"
  validValues :: "jsDictionary option"

record visualObjectInstanceContainer =
  displayName :: string

record visualObjectInstanceEnumerationObject =
  instances :: "visualObjectInstance list"
  containers :: "visualObjectInstanceContainer list option"

text \<open>
  \<^verbatim>\<open>VisualObjectInstanceEnumeration\<close>: an array of instances or an enumeration object;
  \<open>NoEnumeration\<close> is the absent value that \<^verbatim>\<open>complete\<close> returns when nothing was pushed.
\<close>

datatype visualObjectInstanceEnumeration =
    NoEnumeration
  | InstanceArray "visualObjectInstance list"
  | EnumerationObject visualObjectInstanceEnumerationObject

text \<open>
  The three private fields of \<^verbatim>\<open>ObjectEnumerationBuilder\<close>; \<open>None\<close> is \<^verbatim>\<open>undefined\<close>,
  the value each has in a new builder. Instances are held by value: the model takes every
  pushed instance to be an object of its own.
\<close>

record objectEnumerationBuilder =
  this_instances :: "visualObjectInstance list option"
  this_containers :: "visualObjectInstanceContainer list option"
  this_containerIdx :: "int option"

text \<open>\<^verbatim>\<open>instance[propertyName]\<close> for the two names \<^verbatim>\<open>extend\<close> is called with.\<close>

fun getField :: "visualObjectInstance \<Rightarrow> fieldName \<Rightarrow> jsDictionary option" where
  "getField inst Properties = properties inst"
| "getField inst ValidValues = validValues inst"

fun setField :: "visualObjectInstance \<Rightarrow> fieldName \<Rightarrow> jsDictionary option \<Rightarrow> visualObjectInstance" where
  "setField inst Properties d = inst\<lparr>properties := d\<rparr>"
| "setField inst ValidValues d = inst\<lparr>validValues := d\<rparr>"

section \<open>selectorEquals, canMerge, extend\<close>

text \<open>\<^verbatim>\<open>x = x || null\<close>: every falsy selector becomes \<^verbatim>\<open>null\<close>, here \<open>None\<close>.\<close>

fun orNull :: "selector \<Rightarrow> selectorObject option" where
  "orNull SelectorUndefined = None"
| "orNull SelectorNull = None"
| "orNull SelectorFalse = None"
| "orNull (Selector s) = Some s"

text \<open>
  After the first two tests both arguments are objects, so the reads of \<^verbatim>\<open>x.id\<close> and
  \<^verbatim>\<open>x.metadata\<close> never meet \<^verbatim>\<open>null\<close>; the last case is not reached. Two objects that
  are \<^verbatim>\<open>===\<close> have equal fields, and so have two equal records.
\<close>

definition selectorEquals :: "selector \<Rightarrow> selector \<Rightarrow> bool" where
  "selectorEquals x0 y0 =
     (let x = orNull x0; y = orNull y0 in
      if x = y then True
      else if (x = None) \<noteq> (y = None) then False
      else (case (x, y) of
              (Some xo, Some yo) \<Rightarrow>
                if id' xo \<noteq> id' yo then False
                else if metadata xo \<noteq> metadata yo then False
                else True
            | _ \<Rightarrow> False))"

definition canMerge :: "visualObjectInstance \<Rightarrow> visualObjectInstance \<Rightarrow> bool" where
  "canMerge x y \<longleftrightarrow>
     objectName x = objectName y \<and>
     containerIdx x = containerIdx y \<and>
     selectorEquals (selector x) (selector y)"

text \<open>
  The \<^verbatim>\<open>for ... in\<close> loop of \<^verbatim>\<open>extend\<close> over the keys of \<^verbatim>\<open>sourceValues\<close>: a key whose
  value in \<^verbatim>\<open>targetValues\<close> is truthy is skipped, any other key is assigned.
\<close>

fun extendLoop :: "jsDictionary \<Rightarrow> jsDictionary \<Rightarrow> string list \<Rightarrow> jsDictionary" where
  "extendLoop targetValues sourceValues [] = targetValues"
| "extendLoop targetValues sourceValues (valuePropertyName # names) =
     (if truthy (getValue targetValues valuePropertyName)
      then extendLoop targetValues sourceValues names
      else extendLoop
             (setValue targetValues valuePropertyName (getValue sourceValues valuePropertyName))
             sourceValues names)"

text \<open>The target instance after \<^verbatim>\<open>extend(target, source, propertyName)\<close>.\<close>

definition extend :: "visualObjectInstance \<Rightarrow> visualObjectInstance \<Rightarrow> fieldName \<Rightarrow> visualObjectInstance" where
  "extend target source propertyName =
     (case getField source propertyName of
        None \<Rightarrow> target
      | Some sourceValues \<Rightarrow>
          (let targetValues = (case getField target propertyName of None \<Rightarrow> [] | Some tv \<Rightarrow> tv)
           in setField target propertyName
                (Some (extendLoop targetValues sourceValues (map fst sourceValues)))))"

section \<open>The builder\<close>

definition newBuilder :: objectEnumerationBuilder where
  "newBuilder = \<lparr>this_instances = None, this_containers = None, this_containerIdx = None\<rparr>"

text \<open>
  The \<^verbatim>\<open>for ... of\<close> loop of \<^verbatim>\<open>pushInstance\<close>: \<open>Some\<close> of the updated array when an
  existing instance took the merge (the early \<^verbatim>\<open>return this\<close>), \<open>None\<close> when the loop ran
  to its end.
\<close>

fun mergeLoop :: "visualObjectInstance list \<Rightarrow> visualObjectInstance \<Rightarrow> visualObjectInstance list option" where
  "mergeLoop [] inst = None"
| "mergeLoop (existingInstance # rest) inst =
     (if canMerge existingInstance inst
      then Some (extend (extend existingInstance inst Properties) inst ValidValues # rest)
      else map_option ((#) existingInstance) (mergeLoop rest inst))"

text \<open>
  \<^verbatim>\<open>pushInstance\<close> returns the builder and writes to its argument; the result is the
  builder after the call and the argument after the call.
\<close>

definition pushInstance ::
  "objectEnumerationBuilder \<Rightarrow> visualObjectInstance \<Rightarrow> bool \<Rightarrow> objectEnumerationBuilder \<times> visualObjectInstance" where
  "pushInstance this inst0 mergeInstances =
     (let instances = (case this_instances this of None \<Rightarrow> [] | Some xs \<Rightarrow> xs);
          inst = (case this_containerIdx this of
                    None \<Rightarrow> inst0
                  | Some idx \<Rightarrow> inst0\<lparr>containerIdx := Some idx\<rparr>)
      in case (if mergeInstances then mergeLoop instances inst else None) of
           Some merged \<Rightarrow> (this\<lparr>this_instances := Some merged\<rparr>, inst)
         | None \<Rightarrow> (this\<lparr>this_instances := Some (instances @ [inst])\<rparr>, inst))"

definition pushContainer ::
  "objectEnumerationBuilder \<Rightarrow> visualObjectInstanceContainer \<Rightarrow> objectEnumerationBuilder" where
  "pushContainer this container =
     (let containers = (case this_containers this of None \<Rightarrow> [] | Some cs \<Rightarrow> cs) @ [container];
          updatedLen = int (length containers)
      in this\<lparr>this_containers := Some containers, this_containerIdx := Some (updatedLen - 1)\<rparr>)"

definition popContainer :: "objectEnumerationBuilder \<Rightarrow> objectEnumerationBuilder" where
  "popContainer this = this\<lparr>this_containerIdx := None\<rparr>"

text \<open>\<^verbatim>\<open>complete\<close>: \<open>None\<close> is the bare \<^verbatim>\<open>return;\<close>.\<close>

definition complete :: "objectEnumerationBuilder \<Rightarrow> visualObjectInstanceEnumerationObject option" where
  "complete this =
     (case this_instances this of
        None \<Rightarrow> None
      | Some xs \<Rightarrow>
          (let result = \<lparr>instances = xs, containers = None\<rparr>
           in case this_containers this of
                None \<Rightarrow> Some result
              | Some cs \<Rightarrow> Some (result\<lparr>containers := Some cs\<rparr>)))"

text \<open>A call of one of the three chainable methods, and a chain of calls on a builder.\<close>

datatype builderCall =
    PushInstance visualObjectInstance bool
  | PushContainer visualObjectInstanceContainer
  | PopContainer

fun call :: "objectEnumerationBuilder \<Rightarrow> builderCall \<Rightarrow> objectEnumerationBuilder" where
  "call this (PushInstance inst mergeInstances) = fst (pushInstance this inst mergeInstances)"
| "call this (PushContainer container) = pushContainer this container"
| "call this PopContainer = popContainer this"

definition chain :: "builderCall list \<Rightarrow> objectEnumerationBuilder" where
  "chain calls = foldl call newBuilder calls"

text \<open>The containers that the \<^verbatim>\<open>pushContainer\<close> calls of a chain pass, in call order.\<close>

fun pushedContainers :: "builderCall list \<Rightarrow> visualObjectInstanceContainer list" where
  "pushedContainers [] = []"
| "pushedContainers (PushContainer container # calls) = container # pushedContainers calls"
| "pushedContainers (PushInstance inst mergeInstances # calls) = pushedContainers calls"
| "pushedContainers (PopContainer # calls) = pushedContainers calls"

section \<open>The static combinators\<close>

text \<open>\<^verbatim>\<open>normalize\<close>; an absent enumeration is cast and returned as it is.\<close>

fun normalize_enumeration ::
  "visualObjectInstanceEnumeration \<Rightarrow> visualObjectInstanceEnumerationObject option" where
  "normalize_enumeration (InstanceArray x) = Some \<lparr>instances = x, containers = None\<rparr>"
| "normalize_enumeration (EnumerationObject x) = Some x"
| "normalize_enumeration NoEnumeration = None"

text \<open>
  The loop of \<^verbatim>\<open>merge\<close> over the instances of \<^verbatim>\<open>yNormalized\<close>: each is pushed onto the
  instances of \<^verbatim>\<open>xNormalized\<close> and then has its \<^verbatim>\<open>containerIdx\<close> moved; the pushed entry is
  the same object, so it is the moved instance that the array holds.
\<close>

fun mergePushLoop ::
  "visualObjectInstance list \<Rightarrow> int \<Rightarrow> visualObjectInstance list \<Rightarrow> visualObjectInstance list" where
  "mergePushLoop xInstances xCategoryCount [] = xInstances"
| "mergePushLoop xInstances xCategoryCount (yInstance # rest) =
     mergePushLoop
       (xInstances @
         [case containerIdx yInstance of
            None \<Rightarrow> yInstance
          | Some idx \<Rightarrow> yInstance\<lparr>containerIdx := Some (idx + xCategoryCount)\<rparr>])
       xCategoryCount rest"

text \<open>
  \<^verbatim>\<open>_.isEmpty\<close> on the containers of \<^verbatim>\<open>yNormalized\<close>: absent or of length 0. In
  \<^verbatim>\<open>merge\<close>, \<^verbatim>\<open>Array.prototype.push.apply\<close> appends the elements of its second argument.
\<close>

fun isEmpty :: "visualObjectInstanceContainer list option \<Rightarrow> bool" where
  "isEmpty None = True"
| "isEmpty (Some cs) = (cs = [])"

definition merge ::
  "visualObjectInstanceEnumeration \<Rightarrow> visualObjectInstanceEnumeration
   \<Rightarrow> visualObjectInstanceEnumerationObject option" where
  "merge x y =
     (case (normalize_enumeration x, normalize_enumeration y) of
        (None, yNormalized) \<Rightarrow> yNormalized
      | (Some xNormalized, None) \<Rightarrow> Some xNormalized
      | (Some xNormalized, Some yNormalized) \<Rightarrow>
          (let xCategoryCount =
                 (case containers xNormalized of None \<Rightarrow> 0 | Some cs \<Rightarrow> int (length cs));
               xMerged = xNormalized
                 \<lparr>instances := mergePushLoop (instances xNormalized) xCategoryCount (instances yNormalized)\<rparr>;
               yContainers = containers yNormalized
           in if \<not> isEmpty yContainers
              then (case containers xMerged of
                      Some xcs \<Rightarrow>
                        Some (xMerged\<lparr>containers :=
                          Some (xcs @ (case yContainers of None \<Rightarrow> [] | Some ycs \<Rightarrow> ycs))\<rparr>)
                    | None \<Rightarrow> Some (xMerged\<lparr>containers := yContainers\<rparr>))
              else Some xMerged))"

section \<open>Example inputs\<close>

text \<open>
  The inputs of the examples: three instances of one object that differ in their properties
  and valid values only, an instance of another object without either map, a selector
  object, and two containers.
\<close>

definition instanceA :: visualObjectInstance where
  "instanceA =
     \<lparr>objectName = ''general'', selector = SelectorUndefined, containerIdx = None,
      properties = Some [(''p'', JSNumber 1)], validValues = None\<rparr>"

definition instanceB :: visualObjectInstance where
  "instanceB =
     \<lparr>objectName = ''general'', selector = SelectorUndefined, containerIdx = None,
      properties = Some [(''p'', JSNumber 2), (''q'', JSNumber 3)], validValues = None\<rparr>"

definition instanceC :: visualObjectInstance where
  "instanceC =
     \<lparr>objectName = ''general'', selector = SelectorUndefined, containerIdx = None,
      properties = Some [(''p'', JSNumber 2), (''q'', JSNumber 3)],
      validValues = Some [(''p'', JSObject 1)]\<rparr>"

definition instanceOther :: visualObjectInstance where
  "instanceOther =
     \<lparr>objectName = ''other'', selector = SelectorUndefined, containerIdx = None,
      properties = None, validValues = None\<rparr>"

definition selectorAM :: selectorObject where
  "selectorAM = \<lparr>id' = JSString ''a'', metadata = JSString ''m'', otherFields = []\<rparr>"

definition containerC1 :: visualObjectInstanceContainer where
  "containerC1 = \<lparr>displayName = ''C1''\<rparr>"

definition containerC2 :: visualObjectInstanceContainer where
  "containerC2 = \<lparr>displayName = ''C2''\<rparr>"

lemmas run_defs = chain_def newBuilder_def pushInstance_def pushContainer_def popContainer_def
  complete_def canMerge_def selectorEquals_def extend_def Let_def
  getValue_def setValue_def arrayIndex_def digitValue_def objectPrototypeKeys_def
  instanceA_def instanceB_def instanceC_def instanceOther_def containerC1_def containerC2_def

section \<open>Dictionaries and the loop of extend\<close>

lemma getOwnValue_None: "getOwnValue d k = None \<longleftrightarrow> k \<notin> fst ` set d"
  by (induction d) force+

lemma getOwnValue_replaceOwnValue:
  "getOwnValue (replaceOwnValue d k v) k' =
     (if k' = k \<and> getOwnValue d k \<noteq> None then Some v else getOwnValue d k')"
  by (induction d) (auto split: if_splits)

lemma keys_replaceOwnValue: "fst ` set (replaceOwnValue d k v) = fst ` set d"
  by (induction d) (force split: if_splits)+

lemma getOwnValue_insertArrayIndex:
  "getOwnValue d k = None \<Longrightarrow>
   getOwnValue (insertArrayIndex d k n v) k' = (if k' = k then Some v else getOwnValue d k')"
  by (induction d) (auto split: option.splits if_splits)

lemma keys_insertArrayIndex: "fst ` set (insertArrayIndex d k n v) = insert k (fst ` set d)"
  by (induction d) (force split: option.splits if_splits)+

lemma getOwnValue_append:
  "getOwnValue d k = None \<Longrightarrow>
   getOwnValue (d @ [(k, v)]) k' = (if k' = k then Some v else getOwnValue d k')"
  by (induction d) (auto split: if_splits)

lemma getOwnValue_setValue:
  "\<not> (k = ''__proto__'' \<and> getOwnValue d k = None) \<Longrightarrow>
   getOwnValue (setValue d k v) k' = (if k' = k then Some v else getOwnValue d k')"
  by (auto simp: setValue_def getOwnValue_replaceOwnValue getOwnValue_insertArrayIndex
      getOwnValue_append split: option.splits)

lemma getValue_setValue:
  "\<not> (k = ''__proto__'' \<and> getOwnValue d k = None) \<Longrightarrow>
   getValue (setValue d k v) k' = (if k' = k then v else getValue d k')"
  by (simp add: getValue_def getOwnValue_setValue)

lemma keys_setValue:
  "\<not> (k = ''__proto__'' \<and> getOwnValue d k = None) \<Longrightarrow>
   fst ` set (setValue d k v) = insert k (fst ` set d)"
  by (auto simp: setValue_def keys_replaceOwnValue keys_insertArrayIndex getOwnValue_None
      split: option.splits)

lemma proto_is_prototype_key: "''__proto__'' \<in> set objectPrototypeKeys"
  by (simp add: objectPrototypeKeys_def)

lemma falsy_is_writable:
  assumes "\<not> truthy (getValue d k)"
  shows "\<not> (k = ''__proto__'' \<and> getOwnValue d k = None)"
proof (rule notI, elim conjE)
  assume k: "k = ''__proto__''" and n: "getOwnValue d k = None"
  from k proto_is_prototype_key have "k \<in> set objectPrototypeKeys" by blast
  with n have "getValue d k = JSBuiltin k" by (simp only: getValue_def option.case if_True)
  with assms show False by simp
qed

lemma extendLoop_getValue:
  "getValue (extendLoop t s ks) k =
     (if truthy (getValue t k) \<or> k \<notin> set ks then getValue t k else getValue s k)"
proof (induction ks arbitrary: t)
  case Nil
  show ?case by simp
next
  case (Cons k' ks)
  show ?case
  proof (cases "truthy (getValue t k')")
    case True
    then show ?thesis by (auto simp: Cons.IH)
  next
    case False
    from getValue_setValue[OF falsy_is_writable[OF False]] False show ?thesis
      by (auto simp: Cons.IH)
  qed
qed

lemma extendLoop_truthy_kept:
  "truthy (getValue t k) \<Longrightarrow> getValue (extendLoop t s ks) k = getValue t k"
  by (simp add: extendLoop_getValue)

lemma extendLoop_keys:
  "fst ` set (extendLoop t s ks) = fst ` set t \<union> {k \<in> set ks. \<not> truthy (getValue t k)}"
proof (induction ks arbitrary: t)
  case Nil
  show ?case by simp
next
  case (Cons k' ks)
  show ?case
  proof (cases "truthy (getValue t k')")
    case True
    then show ?thesis by (auto simp: Cons.IH)
  next
    case False
    note w = falsy_is_writable[OF False]
    from False show ?thesis
      by (auto simp: Cons.IH keys_setValue[OF w] getValue_setValue[OF w])
  qed
qed

lemma extend_properties:
  "properties (extend t s f) =
     (if f = Properties
      then (case properties s of
              None \<Rightarrow> properties t
            | Some sv \<Rightarrow>
                Some (extendLoop (case properties t of None \<Rightarrow> [] | Some tv \<Rightarrow> tv) sv (map fst sv)))
      else properties t)"
  by (cases f) (simp_all add: extend_def Let_def split: option.split)

lemma extend_validValues:
  "validValues (extend t s f) =
     (if f = ValidValues
      then (case validValues s of
              None \<Rightarrow> validValues t
            | Some sv \<Rightarrow>
                Some (extendLoop (case validValues t of None \<Rightarrow> [] | Some tv \<Rightarrow> tv) sv (map fst sv)))
      else validValues t)"
  by (cases f) (simp_all add: extend_def Let_def split: option.split)

lemma extend_identity:
  "objectName (extend t s f) = objectName t"
  "selector (extend t s f) = selector t"
  "containerIdx (extend t s f) = containerIdx t"
  by (cases f; simp add: extend_def Let_def split: option.split)+

lemma extend_twice_folds:
  fixes kept incoming :: visualObjectInstance
  defines "merged \<equiv> extend (extend kept incoming Properties) incoming ValidValues"
  shows "case getField incoming f of
           None \<Rightarrow> getField merged f = getField kept f
         | Some sourceValues \<Rightarrow>
             (\<exists>d. getField merged f = Some d
                \<and> fst ` set d =
                    fst ` set (case getField kept f of None \<Rightarrow> [] | Some tv \<Rightarrow> tv) \<union>
                    {key \<in> fst ` set sourceValues.
                       \<not> truthy (getValue (case getField kept f of None \<Rightarrow> [] | Some tv \<Rightarrow> tv) key)}
                \<and> (\<forall>key. getValue d key =
                      (if key \<in> fst ` set sourceValues \<and>
                          \<not> truthy (getValue (case getField kept f of None \<Rightarrow> [] | Some tv \<Rightarrow> tv) key)
                       then getValue sourceValues key
                       else getValue (case getField kept f of None \<Rightarrow> [] | Some tv \<Rightarrow> tv) key)))"
  unfolding merged_def
  by (cases f)
    (auto simp: extend_properties extend_validValues extendLoop_getValue extendLoop_keys
      split: option.split)

lemma first_writer_wins_example:
  "complete (chain [PushInstance instanceA True, PushInstance instanceB True]) =
     Some \<lparr>instances = [instanceA\<lparr>properties := Some [(''p'', JSNumber 1), (''q'', JSNumber 3)]\<rparr>],
           containers = None\<rparr>"
  by (simp add: run_defs)

text \<open>
  Claim C1 (first writer wins on merged maps). The loop of \<^verbatim>\<open>extend\<close> skips a key only
  when the value kept for it is truthy, so a key that is set to a falsy value is written
  again: pushing an instance with the properties \<^verbatim>\<open>{show: false}\<close> and then a mergeable
  one with \<^verbatim>\<open>{show: true}\<close> leaves one instance whose \<^verbatim>\<open>show\<close> is \<^verbatim>\<open>true\<close>, the
  value of the second writer.
\<close>

theorem extend_overwrites_falsy_value:
  "complete (chain [PushInstance (instanceA\<lparr>properties := Some [(''show'', JSBoolean False)]\<rparr>) True,
                    PushInstance (instanceA\<lparr>properties := Some [(''show'', JSBoolean True)]\<rparr>) True]) =
     Some \<lparr>instances = [instanceA\<lparr>properties := Some [(''show'', JSBoolean True)]\<rparr>],
           containers = None\<rparr>"
  by (simp add: run_defs)

section \<open>Selector equality\<close>

text \<open>
  Claim C8. Every falsy selector counts as "no selector": two of them are equal
  (\<^verbatim>\<open>selectorEquals(undefined, false)\<close> holds), a falsy selector and a selector object
  are unequal either way round, and two selector objects are equal exactly when their
  \<^verbatim>\<open>id\<close> fields are equal and their \<^verbatim>\<open>metadata\<close> fields are equal; no other field
  of a selector object has any influence.
\<close>

theorem selectorEquals_cases:
  "(\<forall>x\<in>{SelectorUndefined, SelectorNull, SelectorFalse}.
      \<forall>y\<in>{SelectorUndefined, SelectorNull, SelectorFalse}. selectorEquals x y)
   \<and> selectorEquals SelectorUndefined SelectorFalse
   \<and> (\<forall>x\<in>{SelectorUndefined, SelectorNull, SelectorFalse}.
        \<not> selectorEquals x (Selector yo) \<and> \<not> selectorEquals (Selector xo) x)
   \<and> (selectorEquals (Selector xo) (Selector yo) \<longleftrightarrow>
        id' xo = id' yo \<and> metadata xo = metadata yo)
   \<and> (selectorEquals (Selector (xo\<lparr>otherFields := f\<rparr>)) (Selector (yo\<lparr>otherFields := g\<rparr>)) \<longleftrightarrow>
        selectorEquals (Selector xo) (Selector yo))"
  by (cases xo; cases yo) (auto simp: selectorEquals_def)

theorem selectorEquals_cases_witness:
  "selectorEquals SelectorUndefined SelectorFalse
   \<and> \<not> selectorEquals SelectorNull (Selector selectorAM)
   \<and> \<not> selectorEquals (Selector selectorAM) SelectorFalse
   \<and> selectorEquals (Selector selectorAM)
        (Selector (selectorAM\<lparr>otherFields := [(''data'', JSObject 1)]\<rparr>))
   \<and> \<not> selectorEquals (Selector selectorAM) (Selector (selectorAM\<lparr>id' := JSString ''b''\<rparr>))
   \<and> \<not> selectorEquals (Selector selectorAM) (Selector (selectorAM\<lparr>metadata := JSString ''n''\<rparr>))"
  using selectorEquals_cases[where xo = selectorAM and yo = selectorAM and f = "[]"
      and g = "[(''data'', JSObject 1)]"]
    selectorEquals_cases[where xo = selectorAM and yo = "selectorAM\<lparr>id' := JSString ''b''\<rparr>"
      and f = "[]" and g = "[]"]
    selectorEquals_cases[where xo = selectorAM and yo = "selectorAM\<lparr>metadata := JSString ''n''\<rparr>"
      and f = "[]" and g = "[]"]
  by (simp add: selectorAM_def)

section \<open>The loop of pushInstance\<close>

lemma mergeLoop_length: "mergeLoop xs i = Some ys \<Longrightarrow> length ys = length xs"
  by (induction xs arbitrary: ys) (auto split: if_splits)

lemma mergeLoop_None: "mergeLoop xs i = None \<longleftrightarrow> (\<forall>x\<in>set xs. \<not> canMerge x i)"
  by (induction xs) auto

lemma mergeLoop_first:
  "\<exists>x\<in>set xs. canMerge x i \<Longrightarrow>
   \<exists>k<length xs. canMerge (xs ! k) i \<and> (\<forall>j<k. \<not> canMerge (xs ! j) i) \<and>
     mergeLoop xs i = Some (xs[k := extend (extend (xs ! k) i Properties) i ValidValues])"
proof (induction xs)
  case Nil
  then show ?case by simp
next
  case (Cons x xs)
  show ?case
  proof (cases "canMerge x i")
    case True
    then have "canMerge ((x # xs) ! 0) i \<and> (\<forall>j<0. \<not> canMerge ((x # xs) ! j) i) \<and>
      mergeLoop (x # xs) i =
        Some ((x # xs)[0 := extend (extend ((x # xs) ! 0) i Properties) i ValidValues])"
      by simp
    then show ?thesis by blast
  next
    case False
    with Cons.prems have "\<exists>x\<in>set xs. canMerge x i" by auto
    from Cons.IH[OF this] obtain k where k: "k < length xs" "canMerge (xs ! k) i"
      "\<forall>j<k. \<not> canMerge (xs ! j) i"
      "mergeLoop xs i = Some (xs[k := extend (extend (xs ! k) i Properties) i ValidValues])"
      by blast
    have "\<forall>j<Suc k. \<not> canMerge ((x # xs) ! j) i"
    proof (intro allI impI)
      fix j assume "j < Suc k"
      with False k(3) show "\<not> canMerge ((x # xs) ! j) i" by (cases j) auto
    qed
    with k False have "Suc k < length (x # xs) \<and> canMerge ((x # xs) ! Suc k) i \<and>
      (\<forall>j<Suc k. \<not> canMerge ((x # xs) ! j) i) \<and>
      mergeLoop (x # xs) i =
        Some ((x # xs)[Suc k := extend (extend ((x # xs) ! Suc k) i Properties) i ValidValues])"
      by simp
    then show ?thesis by blast
  qed
qed

lemma mergeLoop_other:
  "mergeLoop xs i = Some ys \<Longrightarrow> j < length xs \<Longrightarrow> \<not> canMerge (xs ! j) i \<Longrightarrow> ys ! j = xs ! j"
proof (induction xs arbitrary: ys j)
  case Nil
  then show ?case by simp
next
  case (Cons x xs)
  show ?case
  proof (cases "canMerge x i")
    case True
    with Cons.prems show ?thesis by (cases j) auto
  next
    case False
    with Cons.prems obtain zs where zs: "mergeLoop xs i = Some zs" "ys = x # zs" by auto
    show ?thesis
    proof (cases j)
      case 0
      with zs show ?thesis by simp
    next
      case (Suc j')
      with Cons.prems have "j' < length xs" "\<not> canMerge (xs ! j') i" by auto
      from Cons.IH[OF zs(1) this] zs(2) Suc show ?thesis by simp
    qed
  qed
qed

lemma pushInstance_snd:
  "snd (pushInstance this inst m) =
     (case this_containerIdx this of None \<Rightarrow> inst | Some c \<Rightarrow> inst\<lparr>containerIdx := Some c\<rparr>)"
  by (simp add: pushInstance_def Let_def split: option.split)

lemma pushInstance_fst_append:
  "\<not> m \<or> mergeLoop (case this_instances this of None \<Rightarrow> [] | Some xs \<Rightarrow> xs)
          (snd (pushInstance this inst m)) = None \<Longrightarrow>
   fst (pushInstance this inst m) =
     this\<lparr>this_instances := Some ((case this_instances this of None \<Rightarrow> [] | Some xs \<Rightarrow> xs) @
        [snd (pushInstance this inst m)])\<rparr>"
  by (auto simp: pushInstance_def Let_def split: option.split)

lemma pushInstance_fst_merge:
  "m \<Longrightarrow> mergeLoop (case this_instances this of None \<Rightarrow> [] | Some xs \<Rightarrow> xs)
          (snd (pushInstance this inst m)) = Some ys \<Longrightarrow>
   fst (pushInstance this inst m) = this\<lparr>this_instances := Some ys\<rparr>"
  by (auto simp: pushInstance_def Let_def split: option.split)

lemma mergeLoop_nonempty: "mergeLoop xs i \<noteq> Some []"
  by (cases xs) (auto split: if_splits)

text \<open>
  Claim C2. \<^verbatim>\<open>pushInstance\<close> first stamps its argument with the container cursor when
  the cursor is set, and the argument keeps the stamp whatever happens next. With
  \<^verbatim>\<open>mergeInstances\<close> and an accumulated instance that can merge with the stamped one, the
  first such instance in insertion order takes the merge and nothing is appended: the
  entry keeps its name, selector and container index, and for each of \<^verbatim>\<open>properties\<close> and
  \<^verbatim>\<open>validValues\<close>, a map that the stamped instance lacks leaves the entry's map as it
  is, and a map that it has is folded into the entry's map (an empty one if the entry had
  none): the keys of the result are the kept keys and the incoming keys whose kept value
  is not truthy, those keys read the incoming value and every other key reads as before.
  Without \<^verbatim>\<open>mergeInstances\<close>, or with no instance to merge with, the stamped instance
  goes to the end of the sequence.
\<close>

theorem pushInstance_procedure:
  "let instances = (case this_instances this of None \<Rightarrow> [] | Some xs \<Rightarrow> xs);
       stamped = (case this_containerIdx this of
                    None \<Rightarrow> inst
                  | Some c \<Rightarrow> inst\<lparr>containerIdx := Some c\<rparr>)
   in snd (pushInstance this inst mergeInstances) = stamped
      \<and> (mergeInstances \<and> (\<exists>x\<in>set instances. canMerge x stamped) \<longrightarrow>
           (\<exists>k<length instances. \<exists>merged.
              canMerge (instances ! k) stamped
              \<and> (\<forall>j<k. \<not> canMerge (instances ! j) stamped)
              \<and> fst (pushInstance this inst mergeInstances) =
                  this\<lparr>this_instances := Some (instances[k := merged])\<rparr>
              \<and> merged = extend (extend (instances ! k) stamped Properties) stamped ValidValues
              \<and> objectName merged = objectName (instances ! k)
              \<and> selector merged = selector (instances ! k)
              \<and> containerIdx merged = containerIdx (instances ! k)
              \<and> (\<forall>f. case getField stamped f of
                        None \<Rightarrow> getField merged f = getField (instances ! k) f
                      | Some sourceValues \<Rightarrow>
                          (\<exists>d. getField merged f = Some d
                             \<and> fst ` set d =
                                 fst ` set (case getField (instances ! k) f of
                                              None \<Rightarrow> [] | Some tv \<Rightarrow> tv) \<union>
                                 {key \<in> fst ` set sourceValues.
                                    \<not> truthy (getValue (case getField (instances ! k) f of
                                                         None \<Rightarrow> [] | Some tv \<Rightarrow> tv) key)}
                             \<and> (\<forall>key. getValue d key =
                                   (if key \<in> fst ` set sourceValues \<and>
                                       \<not> truthy (getValue (case getField (instances ! k) f of
                                                            None \<Rightarrow> [] | Some tv \<Rightarrow> tv) key)
                                    then getValue sourceValues key
                                    else getValue (case getField (instances ! k) f of
                                                     None \<Rightarrow> [] | Some tv \<Rightarrow> tv) key))))))
      \<and> (\<not> mergeInstances \<or> (\<forall>x\<in>set instances. \<not> canMerge x stamped) \<longrightarrow>
           fst (pushInstance this inst mergeInstances) =
             this\<lparr>this_instances := Some (instances @ [stamped])\<rparr>)"
proof -
  define instances where "instances = (case this_instances this of None \<Rightarrow> [] | Some xs \<Rightarrow> xs)"
  define stamped where "stamped = (case this_containerIdx this of
                    None \<Rightarrow> inst
                  | Some c \<Rightarrow> inst\<lparr>containerIdx := Some c\<rparr>)"
  have s: "snd (pushInstance this inst mergeInstances) = stamped"
    by (simp add: pushInstance_snd stamped_def)
  have a: "fst (pushInstance this inst mergeInstances) =
             this\<lparr>this_instances := Some (instances @ [stamped])\<rparr>"
    if "\<not> mergeInstances \<or> (\<forall>x\<in>set instances. \<not> canMerge x stamped)"
    using that pushInstance_fst_append[of mergeInstances this inst]
    by (simp add: s mergeLoop_None flip: instances_def)
  have b: "\<exists>k<length instances. \<exists>merged.
              canMerge (instances ! k) stamped
              \<and> (\<forall>j<k. \<not> canMerge (instances ! j) stamped)
              \<and> fst (pushInstance this inst mergeInstances) =
                  this\<lparr>this_instances := Some (instances[k := merged])\<rparr>
              \<and> merged = extend (extend (instances ! k) stamped Properties) stamped ValidValues
              \<and> objectName merged = objectName (instances ! k)
              \<and> selector merged = selector (instances ! k)
              \<and> containerIdx merged = containerIdx (instances ! k)
              \<and> (\<forall>f. case getField stamped f of
                        None \<Rightarrow> getField merged f = getField (instances ! k) f
                      | Some sourceValues \<Rightarrow>
                          (\<exists>d. getField merged f = Some d
                             \<and> fst ` set d =
                                 fst ` set (case getField (instances ! k) f of
                                              None \<Rightarrow> [] | Some tv \<Rightarrow> tv) \<union>
                                 {key \<in> fst ` set sourceValues.
                                    \<not> truthy (getValue (case getField (instances ! k) f of
                                                         None \<Rightarrow> [] | Some tv \<Rightarrow> tv) key)}
                             \<and> (\<forall>key. getValue d key =
                                   (if key \<in> fst ` set sourceValues \<and>
                                       \<not> truthy (getValue (case getField (instances ! k) f of
                                                            None \<Rightarrow> [] | Some tv \<Rightarrow> tv) key)
                                    then getValue sourceValues key
                                    else getValue (case getField (instances ! k) f of
                                                     None \<Rightarrow> [] | Some tv \<Rightarrow> tv) key))))"
    if "mergeInstances" "\<exists>x\<in>set instances. canMerge x stamped"
  proof -
    from mergeLoop_first[OF that(2)] obtain k where k: "k < length instances"
      "canMerge (instances ! k) stamped" "\<forall>j<k. \<not> canMerge (instances ! j) stamped"
      "mergeLoop instances stamped =
         Some (instances[k := extend (extend (instances ! k) stamped Properties) stamped ValidValues])"
      by blast
    define merged where
      "merged = extend (extend (instances ! k) stamped Properties) stamped ValidValues"
    from pushInstance_fst_merge[of mergeInstances this inst, OF that(1)] k(4)
    have f: "fst (pushInstance this inst mergeInstances) =
           this\<lparr>this_instances := Some (instances[k := merged])\<rparr>"
      by (simp add: s merged_def flip: instances_def)
    have i: "objectName merged = objectName (instances ! k)"
      "selector merged = selector (instances ! k)"
      "containerIdx merged = containerIdx (instances ! k)"
      by (simp_all add: merged_def extend_identity)
    have m: "case getField stamped f of
                        None \<Rightarrow> getField merged f = getField (instances ! k) f
                      | Some sourceValues \<Rightarrow>
                          (\<exists>d. getField merged f = Some d
                             \<and> fst ` set d =
                                 fst ` set (case getField (instances ! k) f of
                                              None \<Rightarrow> [] | Some tv \<Rightarrow> tv) \<union>
                                 {key \<in> fst ` set sourceValues.
                                    \<not> truthy (getValue (case getField (instances ! k) f of
                                                         None \<Rightarrow> [] | Some tv \<Rightarrow> tv) key)}
                             \<and> (\<forall>key. getValue d key =
                                   (if key \<in> fst ` set sourceValues \<and>
                                       \<not> truthy (getValue (case getField (instances ! k) f of
                                                            None \<Rightarrow> [] | Some tv \<Rightarrow> tv) key)
                                    then getValue sourceValues key
                                    else getValue (case getField (instances ! k) f of
                                                     None \<Rightarrow> [] | Some tv \<Rightarrow> tv) key)))" for f
      unfolding merged_def by (rule extend_twice_folds)
    from k(1,2,3) f i m merged_def show ?thesis by blast
  qed
  from s a b show ?thesis
    unfolding Let_def instances_def stamped_def by blast
qed

theorem pushInstance_procedure_witness:
  "pushInstance (chain [PushContainer containerC1, PushInstance instanceA True]) instanceB True =
     (\<lparr>this_instances = Some [\<lparr>objectName = ''general'', selector = SelectorUndefined,
          containerIdx = Some 0, properties = Some [(''p'', JSNumber 1), (''q'', JSNumber 3)],
          validValues = None\<rparr>],
       this_containers = Some [containerC1], this_containerIdx = Some 0\<rparr>,
      instanceB\<lparr>containerIdx := Some 0\<rparr>)
   \<and> pushInstance (chain [PushContainer containerC1, PushInstance instanceA True]) instanceB False =
     (\<lparr>this_instances = Some [instanceA\<lparr>containerIdx := Some 0\<rparr>, instanceB\<lparr>containerIdx := Some 0\<rparr>],
       this_containers = Some [containerC1], this_containerIdx = Some 0\<rparr>,
      instanceB\<lparr>containerIdx := Some 0\<rparr>)
   \<and> pushInstance (chain [PushInstance instanceOther True, PushInstance instanceA True]) instanceC True =
     (\<lparr>this_instances = Some [instanceOther,
          \<lparr>objectName = ''general'', selector = SelectorUndefined, containerIdx = None,
           properties = Some [(''p'', JSNumber 1), (''q'', JSNumber 3)],
           validValues = Some [(''p'', JSObject 1)]\<rparr>],
       this_containers = None, this_containerIdx = None\<rparr>,
      instanceC)
   \<and> pushInstance (chain [PushInstance (instanceOther\<lparr>objectName := ''general''\<rparr>) True]) instanceC True =
     (\<lparr>this_instances = Some [instanceC], this_containers = None, this_containerIdx = None\<rparr>,
      instanceC)
   \<and> pushInstance (chain [PushInstance instanceC True]) instanceA True =
     (\<lparr>this_instances = Some [instanceC], this_containers = None, this_containerIdx = None\<rparr>,
      instanceA)"
  using pushInstance_procedure[of "chain [PushContainer containerC1, PushInstance instanceA True]" instanceB True]
    pushInstance_procedure[of "chain [PushContainer containerC1, PushInstance instanceA True]" instanceB False]
    pushInstance_procedure[of "chain [PushInstance instanceOther True, PushInstance instanceA True]" instanceC True]
    pushInstance_procedure[of "chain [PushInstance (instanceOther\<lparr>objectName := ''general''\<rparr>) True]" instanceC True]
    pushInstance_procedure[of "chain [PushInstance instanceC True]" instanceA True]
  by (simp add: run_defs)

section \<open>Chains of calls and complete\<close>

lemma pushInstance_this_instances:
  "\<exists>ys. this_instances (fst (pushInstance this inst m)) = Some ys \<and> ys \<noteq> [] \<and>
     length (case this_instances this of None \<Rightarrow> [] | Some xs \<Rightarrow> xs) \<le> length ys"
  by (auto simp: pushInstance_def Let_def mergeLoop_nonempty split: option.split dest: mergeLoop_length)

lemma pushInstance_other_fields:
  "this_containers (fst (pushInstance this inst m)) = this_containers this"
  "this_containerIdx (fst (pushInstance this inst m)) = this_containerIdx this"
  by (auto simp: pushInstance_def Let_def split: option.split)

lemma call_this_instances_None:
  "this_instances (call this c) = None \<longleftrightarrow>
     this_instances this = None \<and> (\<forall>inst m. c \<noteq> PushInstance inst m)"
proof (cases c)
  case (PushInstance inst m)
  with pushInstance_this_instances[of this inst m] show ?thesis by auto
next
  case (PushContainer k)
  then show ?thesis by (simp add: pushContainer_def Let_def)
next
  case PopContainer
  then show ?thesis by (simp add: popContainer_def)
qed

lemma foldl_call_this_instances_None:
  "this_instances (foldl call this calls) = None \<longleftrightarrow>
     this_instances this = None \<and> (\<forall>inst m. PushInstance inst m \<notin> set calls)"
  by (induction calls arbitrary: this) (auto simp: call_this_instances_None)

lemma call_nonempty:
  "this_instances this \<noteq> Some [] \<Longrightarrow> this_instances (call this c) \<noteq> Some []"
proof (cases c)
  case (PushInstance inst m)
  with pushInstance_this_instances[of this inst m] show ?thesis by auto
next
  case (PushContainer k)
  assume "this_instances this \<noteq> Some []"
  with PushContainer show ?thesis by (simp add: pushContainer_def Let_def)
next
  case PopContainer
  assume "this_instances this \<noteq> Some []"
  with PopContainer show ?thesis by (simp add: popContainer_def)
qed

lemma foldl_call_nonempty:
  "this_instances this \<noteq> Some [] \<Longrightarrow> this_instances (foldl call this calls) \<noteq> Some []"
  by (induction calls arbitrary: this) (simp_all add: call_nonempty)

lemma this_containers_steps:
  "this_containers (pushContainer this k) =
     Some ((case this_containers this of None \<Rightarrow> [] | Some cs \<Rightarrow> cs) @ [k])"
  "this_containers (popContainer this) = this_containers this"
  by (simp_all add: pushContainer_def popContainer_def Let_def)

lemma foldl_call_this_containers:
  "this_containers (foldl call this calls) =
     (if pushedContainers calls = [] then this_containers this
      else Some ((case this_containers this of None \<Rightarrow> [] | Some cs \<Rightarrow> cs) @
                 pushedContainers calls))"
proof (induction calls arbitrary: this)
  case Nil
  show ?case by simp
next
  case (Cons c calls)
  show ?case
    by (cases c)
      (simp_all add: Cons.IH pushInstance_other_fields this_containers_steps split: option.split)
qed

lemma complete_eq:
  "complete this =
     (case this_instances this of
        None \<Rightarrow> None
      | Some xs \<Rightarrow> Some \<lparr>instances = xs, containers = this_containers this\<rparr>)"
  by (simp add: complete_def Let_def split: option.split)

text \<open>
  Claim C5. \<^verbatim>\<open>complete\<close> on a chain of calls returns nothing exactly when the chain
  holds no \<^verbatim>\<open>pushInstance\<close>, however many containers it pushed, and nothing is not an
  enumeration object with an empty instance list. Otherwise the result carries the
  accumulated instances, and its \<^verbatim>\<open>containers\<close> field is present exactly when the chain
  pushed a container; it then holds the pushed containers in call order.
\<close>

theorem complete_of_chain:
  "(complete (chain calls) = None \<longleftrightarrow> (\<forall>inst m. PushInstance inst m \<notin> set calls))
   \<and> (\<forall>r. complete (chain calls) = Some r \<longrightarrow>
         this_instances (chain calls) = Some (instances r)
         \<and> containers r =
             (if pushedContainers calls = [] then None
              else Some (pushedContainers calls)))
   \<and> complete newBuilder = None
   \<and> complete newBuilder \<noteq> Some \<lparr>instances = [], containers = None\<rparr>"
proof -
  have n: "this_instances newBuilder = None" "this_containers newBuilder = None"
    by (simp_all add: newBuilder_def)
  have "complete (chain calls) = None \<longleftrightarrow> this_instances (chain calls) = None"
    by (simp add: complete_eq split: option.split)
  then have 1: "complete (chain calls) = None \<longleftrightarrow> (\<forall>inst m. PushInstance inst m \<notin> set calls)"
    by (simp add: chain_def foldl_call_this_instances_None n)
  have 2: "this_instances (chain calls) = Some (instances r)
         \<and> containers r =
             (if pushedContainers calls = [] then None
              else Some (pushedContainers calls))"
    if "complete (chain calls) = Some r" for r
    using that
    by (auto simp: complete_eq chain_def foldl_call_this_containers n split: option.splits)
  have 3: "complete newBuilder = None"
    by (simp add: complete_eq n)
  from 1 2 3 show ?thesis by simp
qed

theorem complete_of_chain_witness:
  "complete (chain [PushContainer containerC1]) = None
   \<and> complete (chain [PushContainer containerC1, PushInstance instanceA True]) =
       Some \<lparr>instances = [instanceA\<lparr>containerIdx := Some 0\<rparr>], containers = Some [containerC1]\<rparr>
   \<and> complete (chain [PushInstance instanceA True]) =
       Some \<lparr>instances = [instanceA], containers = None\<rparr>"
  using complete_of_chain[of "[PushContainer containerC1]"]
    complete_of_chain[of "[PushContainer containerC1, PushInstance instanceA True]"]
    complete_of_chain[of "[PushInstance instanceA True]"]
  by (simp add: run_defs)

text \<open>
  Claim C10. Whatever the chain of calls, \<^verbatim>\<open>complete\<close> returns nothing or an enumeration
  object with at least one instance: an object with an empty instance list is never
  returned.
\<close>

theorem instances_never_empty:
  "(complete (chain calls) = None
    \<or> (\<exists>r. complete (chain calls) = Some r \<and> instances r \<noteq> []))
   \<and> complete (chain calls) \<noteq> Some \<lparr>instances = [], containers = cs\<rparr>"
proof -
  have "this_instances (chain calls) \<noteq> Some []"
    unfolding chain_def by (rule foldl_call_nonempty) (simp add: newBuilder_def)
  then show ?thesis
    by (auto simp: complete_eq split: option.splits)
qed

theorem instances_never_empty_witness:
  "complete (chain [PushInstance instanceA True, PushInstance instanceB True]) \<noteq>
     Some \<lparr>instances = [], containers = None\<rparr>
   \<and> (\<exists>r. complete (chain [PushInstance instanceA True, PushInstance instanceB True]) = Some r
          \<and> instances r \<noteq> [])"
  using instances_never_empty[of "[PushInstance instanceA True, PushInstance instanceB True]" None]
  by (simp add: run_defs)

section \<open>Merging and containers\<close>

lemma pushInstance_keeps_other:
  assumes "j < length (case this_instances this of None \<Rightarrow> [] | Some xs \<Rightarrow> xs)"
    and "\<not> canMerge ((case this_instances this of None \<Rightarrow> [] | Some xs \<Rightarrow> xs) ! j)
             (snd (pushInstance this inst m))"
  shows "\<exists>ys. this_instances (fst (pushInstance this inst m)) = Some ys \<and> j < length ys \<and>
           ys ! j = (case this_instances this of None \<Rightarrow> [] | Some xs \<Rightarrow> xs) ! j"
proof -
  let ?xs = "case this_instances this of None \<Rightarrow> [] | Some xs \<Rightarrow> xs"
  let ?s = "snd (pushInstance this inst m)"
  show ?thesis
  proof (cases "m \<and> mergeLoop ?xs ?s \<noteq> None")
    case True
    then obtain ys where ys: "mergeLoop ?xs ?s = Some ys" by auto
    from True ys have "fst (pushInstance this inst m) = this\<lparr>this_instances := Some ys\<rparr>"
      by (simp add: pushInstance_fst_merge)
    moreover from mergeLoop_other[OF ys assms] have "ys ! j = ?xs ! j" .
    moreover from mergeLoop_length[OF ys] assms(1) have "j < length ys" by simp
    ultimately show ?thesis by simp
  next
    case False
    then have "fst (pushInstance this inst m) = this\<lparr>this_instances := Some (?xs @ [?s])\<rparr>"
      using pushInstance_fst_append[of m this inst] by blast
    with assms(1) show ?thesis by (simp add: nth_append)
  qed
qed

text \<open>
  Claim C3. Two instances can merge exactly when their \<^verbatim>\<open>objectName\<close> fields are equal,
  their \<^verbatim>\<open>containerIdx\<close> fields are equal (both unset included) and their selectors are
  equal by \<^verbatim>\<open>selectorEquals\<close>. So \<^verbatim>\<open>pushInstance\<close> leaves every accumulated instance
  of another container as it is, and two instances pushed under two containers are both
  in the result of \<^verbatim>\<open>complete\<close>, whatever their names and selectors.
\<close>

theorem canMerge_same_target:
  "(canMerge x y \<longleftrightarrow>
      objectName x = objectName y \<and> containerIdx x = containerIdx y \<and>
      selectorEquals (selector x) (selector y))
   \<and> (containerIdx x \<noteq> containerIdx y \<longrightarrow> \<not> canMerge x y)
   \<and> (\<forall>j. j < length (case this_instances this of None \<Rightarrow> [] | Some xs \<Rightarrow> xs) \<and>
          containerIdx ((case this_instances this of None \<Rightarrow> [] | Some xs \<Rightarrow> xs) ! j) \<noteq>
            containerIdx (snd (pushInstance this inst m)) \<longrightarrow>
          (\<exists>ys. this_instances (fst (pushInstance this inst m)) = Some ys \<and> j < length ys \<and>
             ys ! j = (case this_instances this of None \<Rightarrow> [] | Some xs \<Rightarrow> xs) ! j))
   \<and> complete (chain [PushContainer c1, PushInstance i1 m1, PushContainer c2, PushInstance i2 m2]) =
       Some \<lparr>instances = [i1\<lparr>containerIdx := Some 0\<rparr>, i2\<lparr>containerIdx := Some 1\<rparr>],
             containers = Some [c1, c2]\<rparr>"
proof -
  have 1: "canMerge x y \<longleftrightarrow>
      objectName x = objectName y \<and> containerIdx x = containerIdx y \<and>
      selectorEquals (selector x) (selector y)"
    by (simp add: canMerge_def)
  have 2: "containerIdx x \<noteq> containerIdx y \<longrightarrow> \<not> canMerge x y"
    by (simp add: canMerge_def)
  have 3: "\<exists>ys. this_instances (fst (pushInstance this inst m)) = Some ys \<and> j < length ys \<and>
             ys ! j = (case this_instances this of None \<Rightarrow> [] | Some xs \<Rightarrow> xs) ! j"
    if "j < length (case this_instances this of None \<Rightarrow> [] | Some xs \<Rightarrow> xs)"
      and "containerIdx ((case this_instances this of None \<Rightarrow> [] | Some xs \<Rightarrow> xs) ! j) \<noteq>
            containerIdx (snd (pushInstance this inst m))" for j
    using that by (intro pushInstance_keeps_other) (simp_all add: canMerge_def)
  have 4: "complete (chain [PushContainer c1, PushInstance i1 m1, PushContainer c2, PushInstance i2 m2]) =
       Some \<lparr>instances = [i1\<lparr>containerIdx := Some 0\<rparr>, i2\<lparr>containerIdx := Some 1\<rparr>],
             containers = Some [c1, c2]\<rparr>"
    by (simp add: chain_def newBuilder_def pushInstance_def pushContainer_def complete_def
        canMerge_def Let_def)
  from 1 2 3 4 show ?thesis by blast
qed

theorem canMerge_same_target_witness:
  "\<not> canMerge (instanceA\<lparr>containerIdx := Some 0\<rparr>) (instanceA\<lparr>containerIdx := Some 1\<rparr>)
   \<and> canMerge instanceA instanceB
   \<and> complete (chain [PushContainer containerC1, PushInstance instanceA True,
                       PushContainer containerC2, PushInstance instanceA True]) =
       Some \<lparr>instances = [instanceA\<lparr>containerIdx := Some 0\<rparr>, instanceA\<lparr>containerIdx := Some 1\<rparr>],
             containers = Some [containerC1, containerC2]\<rparr>
   \<and> this_instances (fst (pushInstance
        (chain [PushContainer containerC1, PushInstance instanceA True, PushContainer containerC2])
        instanceA True)) =
       Some [instanceA\<lparr>containerIdx := Some 0\<rparr>, instanceA\<lparr>containerIdx := Some 1\<rparr>]"
  using canMerge_same_target[where x = "instanceA\<lparr>containerIdx := Some 0\<rparr>"
      and y = "instanceA\<lparr>containerIdx := Some 1\<rparr>"
      and this = "chain [PushContainer containerC1, PushInstance instanceA True, PushContainer containerC2]"
      and inst = instanceA and m = True
      and ?c1.0 = containerC1 and ?i1.0 = instanceA and ?m1.0 = True
      and ?c2.0 = containerC2 and ?i2.0 = instanceA and ?m2.0 = True]
    canMerge_same_target[where x = instanceA and y = instanceB and this = newBuilder
      and inst = instanceA and m = True
      and ?c1.0 = containerC1 and ?i1.0 = instanceA and ?m1.0 = True
      and ?c2.0 = containerC2 and ?i2.0 = instanceA and ?m2.0 = True]
  by (simp add: run_defs)

text \<open>
  Claim C4. \<^verbatim>\<open>pushContainer\<close> appends the container and sets the cursor to its index,
  the new length minus one; an instance pushed while the cursor is set gets that index;
  \<^verbatim>\<open>popContainer\<close> only unsets the cursor, it does not go back to an earlier container,
  and an instance pushed then is not stamped. So after \<^verbatim>\<open>pushContainer(C1)\<close>,
  \<^verbatim>\<open>pushInstance(I1)\<close>, \<^verbatim>\<open>popContainer()\<close>, \<^verbatim>\<open>pushInstance(I2)\<close> the first
  instance has index 0 and the second, which came without an index, has none.
\<close>

theorem container_cursor:
  "this_containers (pushContainer this c) =
     Some ((case this_containers this of None \<Rightarrow> [] | Some cs \<Rightarrow> cs) @ [c])
   \<and> this_containerIdx (pushContainer this c) =
       Some (int (length ((case this_containers this of None \<Rightarrow> [] | Some cs \<Rightarrow> cs) @ [c])) - 1)
   \<and> this_instances (pushContainer this c) = this_instances this
   \<and> (\<forall>k. this_containerIdx this = Some k \<longrightarrow>
         snd (pushInstance this inst m) = inst\<lparr>containerIdx := Some k\<rparr>
         \<and> (\<not> m \<longrightarrow> this_instances (fst (pushInstance this inst m)) =
               Some ((case this_instances this of None \<Rightarrow> [] | Some xs \<Rightarrow> xs) @
                     [inst\<lparr>containerIdx := Some k\<rparr>])))
   \<and> popContainer this = this\<lparr>this_containerIdx := None\<rparr>
   \<and> (this_containerIdx this = None \<longrightarrow>
         snd (pushInstance this inst m) = inst
         \<and> (\<not> m \<longrightarrow> this_instances (fst (pushInstance this inst m)) =
               Some ((case this_instances this of None \<Rightarrow> [] | Some xs \<Rightarrow> xs) @ [inst])))
   \<and> this_containerIdx (fst (pushInstance this inst m)) = this_containerIdx this
   \<and> this_containerIdx (chain [PushContainer c1, PushContainer c2, PopContainer]) = None
   \<and> (containerIdx i2 = None \<longrightarrow>
         complete (chain [PushContainer c1, PushInstance i1 m1, PopContainer, PushInstance i2 m2]) =
           Some \<lparr>instances = [i1\<lparr>containerIdx := Some 0\<rparr>, i2], containers = Some [c1]\<rparr>)"
proof -
  have 1: "this_containers (pushContainer this c) =
     Some ((case this_containers this of None \<Rightarrow> [] | Some cs \<Rightarrow> cs) @ [c])"
    "this_containerIdx (pushContainer this c) =
       Some (int (length ((case this_containers this of None \<Rightarrow> [] | Some cs \<Rightarrow> cs) @ [c])) - 1)"
    "this_instances (pushContainer this c) = this_instances this"
    by (simp_all add: pushContainer_def Let_def)
  have 2: "snd (pushInstance this inst m) = inst\<lparr>containerIdx := Some k\<rparr>
         \<and> (\<not> m \<longrightarrow> this_instances (fst (pushInstance this inst m)) =
               Some ((case this_instances this of None \<Rightarrow> [] | Some xs \<Rightarrow> xs) @
                     [inst\<lparr>containerIdx := Some k\<rparr>]))"
    if "this_containerIdx this = Some k" for k
    using that by (auto simp: pushInstance_def Let_def split: option.split)
  have 3: "popContainer this = this\<lparr>this_containerIdx := None\<rparr>"
    by (simp add: popContainer_def)
  have 4: "snd (pushInstance this inst m) = inst
         \<and> (\<not> m \<longrightarrow> this_instances (fst (pushInstance this inst m)) =
               Some ((case this_instances this of None \<Rightarrow> [] | Some xs \<Rightarrow> xs) @ [inst]))"
    if "this_containerIdx this = None"
    using that by (auto simp: pushInstance_def Let_def split: option.split)
  have 5: "this_containerIdx (fst (pushInstance this inst m)) = this_containerIdx this"
    by (rule pushInstance_other_fields)
  have 6: "this_containerIdx (chain [PushContainer c1, PushContainer c2, PopContainer]) = None"
    by (simp add: chain_def popContainer_def)
  have 7: "complete (chain [PushContainer c1, PushInstance i1 m1, PopContainer, PushInstance i2 m2]) =
           Some \<lparr>instances = [i1\<lparr>containerIdx := Some 0\<rparr>, i2], containers = Some [c1]\<rparr>"
    if "containerIdx i2 = None"
    using that
    by (simp add: chain_def newBuilder_def pushInstance_def pushContainer_def popContainer_def
        complete_def canMerge_def Let_def)
  from 1 2 3 4 5 6 7 show ?thesis by blast
qed

theorem container_cursor_witness:
  "this_containerIdx (pushContainer newBuilder containerC1) = Some 0
   \<and> this_containerIdx (chain [PushContainer containerC1, PushContainer containerC2]) = Some 1
   \<and> this_containerIdx (chain [PushContainer containerC1, PushContainer containerC2, PopContainer]) = None
   \<and> snd (pushInstance (chain [PushContainer containerC1]) instanceA True) =
       instanceA\<lparr>containerIdx := Some 0\<rparr>
   \<and> snd (pushInstance (chain [PushContainer containerC1, PopContainer]) instanceB True) = instanceB
   \<and> complete (chain [PushContainer containerC1, PushInstance instanceA True, PopContainer,
                       PushInstance instanceB True]) =
       Some \<lparr>instances = [instanceA\<lparr>containerIdx := Some 0\<rparr>, instanceB],
             containers = Some [containerC1]\<rparr>"
  using container_cursor[where this = newBuilder and c = containerC1 and inst = instanceA and m = True
      and ?c1.0 = containerC1 and ?c2.0 = containerC2 and ?i1.0 = instanceA and ?m1.0 = True
      and ?i2.0 = instanceB and ?m2.0 = True]
    container_cursor[where this = "chain [PushContainer containerC1]" and c = containerC2
      and inst = instanceA and m = True
      and ?c1.0 = containerC1 and ?c2.0 = containerC2 and ?i1.0 = instanceA and ?m1.0 = True
      and ?i2.0 = instanceB and ?m2.0 = True]
    container_cursor[where this = "chain [PushContainer containerC1, PopContainer]" and c = containerC2
      and inst = instanceB and m = True
      and ?c1.0 = containerC1 and ?c2.0 = containerC2 and ?i1.0 = instanceA and ?m1.0 = True
      and ?i2.0 = instanceB and ?m2.0 = True]
  by (simp add: run_defs)

section \<open>normalize and merge\<close>

text \<open>
  Claim C9. \<^verbatim>\<open>normalize\<close> wraps an array of instances into an enumeration object
  without containers, so the array \<^verbatim>\<open>[I1, I2]\<close> and the object
  \<^verbatim>\<open>{instances: [I1, I2]}\<close> normalize to the same result; it returns an enumeration
  object as it is, and an absent enumeration as absent.
\<close>

theorem normalize_enumeration_forms:
  "normalize_enumeration (InstanceArray xs) = Some \<lparr>instances = xs, containers = None\<rparr>
   \<and> normalize_enumeration (InstanceArray [I1, I2]) =
       normalize_enumeration (EnumerationObject \<lparr>instances = [I1, I2], containers = None\<rparr>)
   \<and> normalize_enumeration (EnumerationObject R) = Some R
   \<and> normalize_enumeration NoEnumeration = None"
  by simp

text \<open>
  Claim C6. Merging with an absent enumeration returns the other argument as it is, on
  either side, and merging two absent enumerations returns an absent one.
\<close>

theorem merge_no_enumeration:
  "merge NoEnumeration (EnumerationObject R) = Some R
   \<and> merge (EnumerationObject R) NoEnumeration = Some R
   \<and> merge NoEnumeration NoEnumeration = None
   \<and> merge NoEnumeration y = normalize_enumeration y
   \<and> merge x NoEnumeration = normalize_enumeration x"
  by (simp add: merge_def split: option.split)

lemma mergePushLoop_eq:
  "mergePushLoop xs n ys =
     xs @ map (\<lambda>i. case containerIdx i of None \<Rightarrow> i | Some k \<Rightarrow> i\<lparr>containerIdx := Some (k + n)\<rparr>) ys"
  by (induction ys arbitrary: xs) auto

text \<open>
  Claim C7. When both arguments normalize to enumeration objects, \<^verbatim>\<open>merge\<close> appends
  the instances of the second, in order, to the instances of the first; each appended
  instance with a \<^verbatim>\<open>containerIdx\<close> has it raised by the number of containers of the
  first (0 when it has none), and the containers of the second, if it has any, follow
  those of the first. The example merges two objects that each hold one container and one
  instance at index 0: the result holds both containers and the second instance at index 1.
\<close>

theorem merge_rebases:
  assumes "normalize_enumeration x = Some xn" and "normalize_enumeration y = Some yn"
  shows "merge x y =
    Some \<lparr>instances =
            instances xn @
            map (\<lambda>i. case containerIdx i of
                       None \<Rightarrow> i
                     | Some k \<Rightarrow> i\<lparr>containerIdx :=
                         Some (k + (case containers xn of None \<Rightarrow> 0 | Some cs \<Rightarrow> int (length cs)))\<rparr>)
              (instances yn),
          containers =
            (case containers yn of
               None \<Rightarrow> containers xn
             | Some ycs \<Rightarrow>
                 if ycs = [] then containers xn
                 else Some ((case containers xn of None \<Rightarrow> [] | Some xcs \<Rightarrow> xcs) @ ycs))\<rparr>"
  using assms
  by (cases xn; cases yn) (auto simp: merge_def mergePushLoop_eq Let_def split: option.splits)

theorem merge_rebases_witness:
  "merge (EnumerationObject \<lparr>instances = [instanceA\<lparr>containerIdx := Some 0\<rparr>],
                              containers = Some [containerC1]\<rparr>)
         (EnumerationObject \<lparr>instances = [instanceB\<lparr>containerIdx := Some 0\<rparr>],
                              containers = Some [containerC2]\<rparr>) =
     Some \<lparr>instances = [instanceA\<lparr>containerIdx := Some 0\<rparr>, instanceB\<lparr>containerIdx := Some 1\<rparr>],
           containers = Some [containerC1, containerC2]\<rparr>"
  using merge_rebases[of
      "EnumerationObject \<lparr>instances = [instanceA\<lparr>containerIdx := Some 0\<rparr>],
                              containers = Some [containerC1]\<rparr>"
      "\<lparr>instances = [instanceA\<lparr>containerIdx := Some 0\<rparr>], containers = Some [containerC1]\<rparr>"
      "EnumerationObject \<lparr>instances = [instanceB\<lparr>containerIdx := Some 0\<rparr>],
                              containers = Some [containerC2]\<rparr>"
      "\<lparr>instances = [instanceB\<lparr>containerIdx := Some 0\<rparr>], containers = Some [containerC2]\<rparr>"]
  by simp

end
